theory Spec2Isabelle
  imports Complex_Main "HOL-Library.Multiset"
begin

section \<open>Data model\<close>

text \<open>
  A pandas DataFrame is modelled as the list of its rows, in row order; the row labels
  are not modelled (the code only ever assigns columns positionally or between frames
  that share one index, and the result's index is reset). A cell that pandas holds as
  NaN or None (a missing value) is \<open>None\<close>; a present number is a real, and the
  functions compute with exact arithmetic. Where the rounding of the code's binary64
  arithmetic decides a property (the mean of a constant column), it is given separately.

  The columns are those the source selects by name:
  \<^verbatim>\<open>['PLAYER_NAME', 'TEAM_ABBREVIATION', 'FG_PCT', 'FG3_PCT', 'FT_PCT', 'AST', 'TOV', 'PTS']\<close>.
  A row of the stats provider's frame has further columns: these are the \<open>more\<close> part
  of the extensible record.
\<close>

record player_id =
  PLAYER_NAME :: "string option"
  TEAM_ABBREVIATION :: "string option"

record player = player_id +
  FG_PCT :: "real option"
  FG3_PCT :: "real option"
  FT_PCT :: "real option"
  AST :: "real option"
  TOV :: "real option"
  PTS :: "real option"

text \<open>
  A row of \<^verbatim>\<open>df_clutch\<close>: the two identifying columns, to which the score column and
  then the rank column are added.
\<close>

record scored = player_id +
  CLUTCH_SCORE :: "real option"

record clutch = scored +
  CLUTCH_RANK :: "real option"

text \<open>
  The exceptions: scikit-learn's input validation refuses an array with no rows
  (\<^verbatim>\<open>ValueError: Found array with 0 sample(s) ... while a minimum of 1 is required\<close>),
  and pandas raises \<^verbatim>\<open>KeyError\<close> for a column that a frame does not have. On a frame
  that has the eight columns only the first can occur.
\<close>

datatype error = ValueError | KeyError

section \<open>Arithmetic with missing values\<close>

text \<open>An arithmetic operation on cells yields NaN as soon as one operand is NaN.\<close>

definition nan2 :: "(real \<Rightarrow> real \<Rightarrow> real) \<Rightarrow> real option \<Rightarrow> real option \<Rightarrow> real option" where
  "nan2 f a b = (case a of None \<Rightarrow> None | Some x \<Rightarrow> (case b of None \<Rightarrow> None | Some y \<Rightarrow> Some (f x y)))"

text \<open>The values of a column that are present, in order.\<close>

definition present :: "real option list \<Rightarrow> real list" where
  "present xs = concat (map (\<lambda>x. case x of None \<Rightarrow> [] | Some v \<Rightarrow> [v]) xs)"

section \<open>sklearn.preprocessing.StandardScaler\<close>

text \<open>
  \<^verbatim>\<open>StandardScaler()\<close> with its defaults (\<^verbatim>\<open>with_mean=True, with_std=True\<close>).
  Fitting computes, for each column, the mean and the population variance (divisor: the
  number of values) over the values that are not NaN; a column with no such value has
  NaN for both. \<^verbatim>\<open>scale_\<close> is the square root of the variance, where a zero is
  replaced by 1 (\<^verbatim>\<open>_handle_zeros_in_scale\<close>).
\<close>

definition nanmean :: "real option list \<Rightarrow> real option" where
  "nanmean xs =
     (let ps = present xs in
      if ps = [] then None else Some (sum_list ps / real (length ps)))"

definition nanvar :: "real option list \<Rightarrow> real option" where
  "nanvar xs =
     (case nanmean xs of
        None \<Rightarrow> None
      | Some m \<Rightarrow>
          let ps = present xs in
          Some (sum_list (map (\<lambda>x. (x - m)\<^sup>2) ps) / real (length ps)))"

definition handle_zeros_in_scale :: "real option \<Rightarrow> real option" where
  "handle_zeros_in_scale scale =
     (case scale of None \<Rightarrow> None | Some s \<Rightarrow> if s = 0 then Some 1 else Some s)"

text \<open>The fitted attributes \<^verbatim>\<open>mean_\<close>, \<^verbatim>\<open>var_\<close> and \<^verbatim>\<open>scale_\<close>, one entry per column.\<close>

record StandardScaler =
  scaler_mean :: "real option list"
  scaler_var :: "real option list"
  scaler_scale :: "real option list"

definition column :: "nat \<Rightarrow> 'a list list \<Rightarrow> 'a list" where
  "column j X = map (\<lambda>row. row ! j) X"

text \<open>
  \<^verbatim>\<open>fit\<close> on an array of shape (n, d), given as its n rows. With n = 0 the validation
  of the input raises; otherwise every row has the d entries of the selected columns.
\<close>

definition fit :: "real option list list \<Rightarrow> error + StandardScaler" where
  "fit X =
     (if X = [] then Inl ValueError
      else
        let columns = map (\<lambda>j. column j X) [0..<length (hd X)] in
        Inr \<lparr>scaler_mean = map nanmean columns,
             scaler_var = map nanvar columns,
             scaler_scale = map (\<lambda>c. handle_zeros_in_scale (map_option sqrt (nanvar c))) columns\<rparr>)"

text \<open>\<^verbatim>\<open>transform\<close>: \<^verbatim>\<open>X -= mean_; X /= scale_\<close> on a copy, column by column.\<close>

definition transform :: "StandardScaler \<Rightarrow> real option list list \<Rightarrow> real option list list" where
  "transform scaler X =
     map (\<lambda>row. map (\<lambda>(x, m, s). nan2 (/) (nan2 (-) x m) s)
                     (zip row (zip (scaler_mean scaler) (scaler_scale scaler)))) X"

definition fit_transform :: "real option list list \<Rightarrow> error + real option list list" where
  "fit_transform X = (case fit X of Inl e \<Rightarrow> Inl e | Inr scaler \<Rightarrow> Inr (transform scaler X))"

section \<open>The scaler's mean and centring in binary64\<close>

text \<open>
  The definitions above compute with exact reals. The code computes in IEEE binary64:
  every operation returns the double nearest to the exact result, ties going to the even
  significand. \<open>float64\<close> is that rounding for the normal range (no overflow, no
  subnormal numbers), 52 being the number of fraction bits. The scaler's \<^verbatim>\<open>mean_\<close> of a
  complete column is the sum of its values, accumulated from the first row to the last,
  divided by their number; \<^verbatim>\<open>transform\<close> subtracts it and divides by \<^verbatim>\<open>scale_\<close>.
\<close>

definition round_half_even :: "real \<Rightarrow> int" where
  "round_half_even x =
     (let f = \<lfloor>x\<rfloor> in
      if x - of_int f < 1 / 2 then f
      else if 1 / 2 < x - of_int f then f + 1
      else if even f then f else f + 1)"

definition float64 :: "real \<Rightarrow> real" where
  "float64 x =
     (if x = 0 then 0
      else
        let e = \<lfloor>log 2 \<bar>x\<bar>\<rfloor>; ulp = 2 powr (of_int (e - 52))
        in of_int (round_half_even (x / ulp)) * ulp)"

text \<open>
  The mean and the centring of one complete column, with the rounding \<open>rnd\<close> applied to the
  result of every operation. With no rounding they are \<^const>\<open>nanmean\<close> and the cell of
  \<^const>\<open>transform\<close> (lemmas \<open>nanmean_unrounded\<close> and \<open>transform_cell_unrounded\<close>); with
  \<^const>\<open>float64\<close> they are what the code computes.
\<close>

definition rounded_sum :: "(real \<Rightarrow> real) \<Rightarrow> real list \<Rightarrow> real" where
  "rounded_sum rnd xs = foldl (\<lambda>a x. rnd (a + x)) 0 xs"

definition rounded_mean :: "(real \<Rightarrow> real) \<Rightarrow> real list \<Rightarrow> real" where
  "rounded_mean rnd xs = rnd (rounded_sum rnd xs / real (length xs))"

definition rounded_transform :: "(real \<Rightarrow> real) \<Rightarrow> real \<Rightarrow> real \<Rightarrow> real \<Rightarrow> real" where
  "rounded_transform rnd mean scale x = rnd (rnd (x - mean) / scale)"

section \<open>numpy and pandas operations\<close>

text \<open>\<^verbatim>\<open>np.dot(A, w)\<close> for a matrix and a vector: one sum of products per row.\<close>

definition dot :: "real option list list \<Rightarrow> real list \<Rightarrow> real option list" where
  "dot A w = map (\<lambda>row. foldl (nan2 (+)) (Some 0) (map (\<lambda>(a, b). nan2 (*) a (Some b)) (zip row w))) A"

text \<open>
  \<^verbatim>\<open>Series.rank(ascending=False)\<close> with the defaults \<^verbatim>\<open>method='average'\<close> and
  \<^verbatim>\<open>na_option='keep'\<close>: a NaN keeps NaN as its rank; any other value gets the average
  of the positions (counted from 1) that its group of equal values occupies when the
  values are put in descending order, that is the number of greater values plus the mean
  of 1, ..., k for a group of k.
\<close>

definition rank_descending :: "real option list \<Rightarrow> real option list" where
  "rank_descending xs =
     map (\<lambda>x. case x of
                 None \<Rightarrow> None
               | Some v \<Rightarrow>
                   Some (real (length (filter (\<lambda>u. v < u) (present xs)))
                         + (real (length (filter (\<lambda>u. u = v) (present xs))) + 1) / 2)) xs"

text \<open>
  \<^verbatim>\<open>sort_values('CLUTCH_SCORE', ascending=False)\<close> with the default
  \<^verbatim>\<open>na_position='last'\<close>, followed by \<^verbatim>\<open>reset_index(drop=True)\<close>, which only renumbers
  the rows. The rows with a score come first, by descending score, then the rows whose
  score is NaN. pandas leaves the order among rows of equal score to the sorting
  algorithm; here they keep their relative order, and no result below depends on it.
\<close>

definition sort_values_descending :: "clutch list \<Rightarrow> clutch list" where
  "sort_values_descending rows =
     sort_key (\<lambda>r. - the (CLUTCH_SCORE r)) (filter (\<lambda>r. CLUTCH_SCORE r \<noteq> None) rows)
     @ filter (\<lambda>r. CLUTCH_SCORE r = None) rows"

section \<open>calcular\_clutch\_score\<close>

text \<open>The dictionary \<^verbatim>\<open>weights\<close>, in its insertion order; a key is a column.\<close>

definition weights :: "((player \<Rightarrow> real option) \<times> real) list" where
  "weights =
     [(PTS, 0.35), (FG_PCT, 0.25), (FT_PCT, 0.15),
      (AST, 0.15), (FG3_PCT, 0.10), (TOV, -0.25)]"

text \<open>\<^verbatim>\<open>df[list_of_columns]\<close> as an array: one row per record, one entry per column.\<close>

definition select_columns :: "('r \<Rightarrow> 'c) list \<Rightarrow> 'r list \<Rightarrow> 'c list list" where
  "select_columns cols df = map (\<lambda>r. map (\<lambda>c. c r) cols) df"

text \<open>
  Lines 17 to 19: the copy of the two identifying columns, to which the score column
  (an array, assigned by position) and the rank column are added.
\<close>

definition assign_columns :: "player list \<Rightarrow> real option list \<Rightarrow> real option list \<Rightarrow> clutch list" where
  "assign_columns df scores ranks =
     map (\<lambda>(r, s, k). \<lparr>PLAYER_NAME = PLAYER_NAME r, TEAM_ABBREVIATION = TEAM_ABBREVIATION r,
                        CLUTCH_SCORE = s, CLUTCH_RANK = k\<rparr>)
         (zip df (zip scores ranks))"

definition calcular_clutch_score :: "player list \<Rightarrow> error + clutch list" where
  "calcular_clutch_score df =
     (case fit_transform (select_columns (map fst weights) df) of
        Inl e \<Rightarrow> Inl e
      | Inr scaled_data \<Rightarrow>
          let clutch_scores = dot scaled_data (map snd weights);
              df_clutch = assign_columns df clutch_scores (rank_descending clutch_scores)
          in Inr (sort_values_descending df_clutch))"

section \<open>obtener\_datos\_jugadores\<close>

text \<open>
  The request to the stats provider (the constructor of \<^verbatim>\<open>LeagueDashPlayerStats\<close> and
  \<^verbatim>\<open>get_data_frames()[0]\<close>) is outside the program: its outcome is an argument, either
  the exception it raised or the frame it returned.
\<close>

datatype exception = Exception string

fun str :: "exception \<Rightarrow> string" where
  "str (Exception msg) = msg"

text \<open>\<^verbatim>\<open>DataFrame.dropna()\<close> on the eight selected columns: a row stays when none is missing.\<close>

definition dropna :: "player list \<Rightarrow> player list" where
  "dropna rows =
     filter (\<lambda>r. PLAYER_NAME r \<noteq> None \<and> TEAM_ABBREVIATION r \<noteq> None \<and> FG_PCT r \<noteq> None \<and>
                 FG3_PCT r \<noteq> None \<and> FT_PCT r \<noteq> None \<and> AST r \<noteq> None \<and> TOV r \<noteq> None \<and>
                 PTS r \<noteq> None) rows"

text \<open>\<^verbatim>\<open>Series.isin(values)\<close> for one cell: a missing cell is in no list of strings.\<close>

definition isin :: "string option \<Rightarrow> string list \<Rightarrow> bool" where
  "isin cell values = (case cell of None \<Rightarrow> False | Some v \<Rightarrow> v \<in> set values)"

text \<open>
  The result is the pair of the messages given to \<^verbatim>\<open>st.error\<close> and the frame returned;
  \<^verbatim>\<open>pd.DataFrame()\<close> is the frame with no rows.
\<close>

definition obtener_datos_jugadores ::
  "string list \<Rightarrow> exception + 'a player_scheme list \<Rightarrow> string list \<times> player list" where
  "obtener_datos_jugadores abreviaturas response =
     (case response of
        Inl e \<Rightarrow> ([''Error en datos de jugadores: '' @ str e], [])
      | Inr stats \<Rightarrow>
          let relevant_stats = dropna (map player.truncate stats)
          in ([], filter (\<lambda>r. isin (TEAM_ABBREVIATION r) abreviaturas) relevant_stats))"

section \<open>Frames with and without the columns\<close>

text \<open>
  The tables above always have the eight columns. pandas also has the frame with no
  column and no row, \<^verbatim>\<open>pd.DataFrame()\<close>, which \<^verbatim>\<open>obtener_datos_jugadores\<close> returns when the
  request fails (line 59). On it the first statement that touches the argument,
  \<^verbatim>\<open>df[list(weights.keys())]\<close> at line 15, raises \<^verbatim>\<open>KeyError\<close>.
\<close>

datatype dataframe = Columnless | Columns "player list"

definition frame_rows :: "dataframe \<Rightarrow> player list" where
  "frame_rows df = (case df of Columnless \<Rightarrow> [] | Columns rows \<Rightarrow> rows)"

definition calcular_clutch_score_frame :: "dataframe \<Rightarrow> error + clutch list" where
  "calcular_clutch_score_frame df =
     (case df of
        Columnless \<Rightarrow> Inl KeyError
      | Columns rows \<Rightarrow> calcular_clutch_score rows)"

text \<open>The frame that \<^verbatim>\<open>obtener_datos_jugadores\<close> returns, with its columns.\<close>

definition obtener_datos_jugadores_frame ::
  "string list \<Rightarrow> exception + 'a player_scheme list \<Rightarrow> dataframe" where
  "obtener_datos_jugadores_frame abreviaturas response =
     (case response of
        Inl e \<Rightarrow> Columnless
      | Inr stats \<Rightarrow> Columns (snd (obtener_datos_jugadores abreviaturas response)))"

section \<open>The same function on a store of frames\<close>

text \<open>
  \<^const>\<open>calcular_clutch_score\<close> above takes the table and returns the result table. To
  state that the function leaves its argument untouched, the same statements are given
  once more as operations on a store of frame objects, addressed by reference: the
  argument \<^verbatim>\<open>df\<close> is the address of the caller's frame.
  Selecting columns with a list of names, \<^verbatim>\<open>copy\<close>, \<^verbatim>\<open>sort_values\<close> and
  \<^verbatim>\<open>reset_index\<close> return a new frame; assigning a column changes the frame it is
  applied to. Arrays and the rank series are values, and the scaler is an object of the
  call alone. A frame is tagged with the columns it has, and asking it for a column it
  lacks raises \<^verbatim>\<open>KeyError\<close>.
\<close>

type_synonym addr = nat

text \<open>The frames of the program, by the columns they have.\<close>

datatype frame =
    Players "player list"
  | Selected "real option list list"
  | Identified "player_id list"
  | Scored "scored list"
  | Ranked "clutch list"

record store =
  heap :: "addr \<Rightarrow> frame option"
  next_addr :: addr

type_synonym 'a action = "store \<Rightarrow> (error + 'a) \<times> store"

text \<open>Sequencing: an exception ends the run, with the store as it is at that point.\<close>

definition and_then :: "'a action \<Rightarrow> ('a \<Rightarrow> 'b action) \<Rightarrow> 'b action" where
  "and_then m f s = (case m s of (Inl e, s') \<Rightarrow> (Inl e, s') | (Inr x, s') \<Rightarrow> f x s')"

text \<open>A new object gets an address that no object has had before.\<close>

definition new :: "frame \<Rightarrow> addr action" where
  "new f s = (Inr (next_addr s), \<lparr>heap = (heap s)(next_addr s \<mapsto> f), next_addr = Suc (next_addr s)\<rparr>)"

text \<open>\<^verbatim>\<open>df[list(weights.keys())]\<close>\<close>

definition getitem_stats :: "addr \<Rightarrow> addr action" where
  "getitem_stats df s =
     (case heap s df of
        Some (Players rows) \<Rightarrow> new (Selected (select_columns (map fst weights) rows)) s
      | _ \<Rightarrow> (Inl KeyError, s))"

text \<open>\<^verbatim>\<open>scaler.fit_transform(X)\<close>, with the default \<^verbatim>\<open>copy=True\<close>: the result is a new array.\<close>

definition scaler_fit_transform :: "addr \<Rightarrow> real option list list action" where
  "scaler_fit_transform X s =
     (case heap s X of
        Some (Selected M) \<Rightarrow> (case fit_transform M of Inl e \<Rightarrow> (Inl e, s) | Inr Z \<Rightarrow> (Inr Z, s))
      | _ \<Rightarrow> (Inl ValueError, s))"

text \<open>\<^verbatim>\<open>df[['PLAYER_NAME', 'TEAM_ABBREVIATION']]\<close>\<close>

definition getitem_ids :: "addr \<Rightarrow> addr action" where
  "getitem_ids df s =
     (case heap s df of
        Some (Players rows) \<Rightarrow>
          new (Identified (map (\<lambda>r. \<lparr>PLAYER_NAME = PLAYER_NAME r,
                                       TEAM_ABBREVIATION = TEAM_ABBREVIATION r\<rparr>) rows)) s
      | _ \<Rightarrow> (Inl KeyError, s))"

text \<open>\<^verbatim>\<open>.copy()\<close>\<close>

definition copy :: "addr \<Rightarrow> addr action" where
  "copy a s = (case heap s a of Some f \<Rightarrow> new f s | None \<Rightarrow> (Inl KeyError, s))"

text \<open>
  \<^verbatim>\<open>df_clutch['CLUTCH_SCORE'] = values\<close>, for an array: pandas raises \<^verbatim>\<open>ValueError\<close>
  when its length is not the number of rows.
\<close>

definition setitem_score :: "addr \<Rightarrow> real option list \<Rightarrow> unit action" where
  "setitem_score a values s =
     (case heap s a of
        Some (Identified rows) \<Rightarrow>
          if length values \<noteq> length rows then (Inl ValueError, s)
          else (Inr (), s\<lparr>heap := (heap s)(a \<mapsto>
                  Scored (map (\<lambda>(r, v). player_id.extend r \<lparr>CLUTCH_SCORE = v\<rparr>) (zip rows values)))\<rparr>)
      | _ \<Rightarrow> (Inl KeyError, s))"

text \<open>\<^verbatim>\<open>df_clutch['CLUTCH_SCORE'].rank(ascending=False)\<close>\<close>

definition rank_score :: "addr \<Rightarrow> real option list action" where
  "rank_score a s =
     (case heap s a of
        Some (Scored rows) \<Rightarrow> (Inr (rank_descending (map CLUTCH_SCORE rows)), s)
      | Some (Ranked rows) \<Rightarrow> (Inr (rank_descending (map CLUTCH_SCORE rows)), s)
      | _ \<Rightarrow> (Inl KeyError, s))"

text \<open>\<^verbatim>\<open>df_clutch['CLUTCH_RANK'] = values\<close>\<close>

definition setitem_rank :: "addr \<Rightarrow> real option list \<Rightarrow> unit action" where
  "setitem_rank a values s =
     (case heap s a of
        Some (Scored rows) \<Rightarrow>
          if length values \<noteq> length rows then (Inl ValueError, s)
          else (Inr (), s\<lparr>heap := (heap s)(a \<mapsto>
                  Ranked (map (\<lambda>(r, v). scored.extend r \<lparr>CLUTCH_RANK = v\<rparr>) (zip rows values)))\<rparr>)
      | _ \<Rightarrow> (Inl KeyError, s))"

text \<open>\<^verbatim>\<open>.sort_values('CLUTCH_SCORE', ascending=False)\<close>\<close>

definition sort_values :: "addr \<Rightarrow> addr action" where
  "sort_values a s =
     (case heap s a of
        Some (Ranked rows) \<Rightarrow> new (Ranked (sort_values_descending rows)) s
      | _ \<Rightarrow> (Inl KeyError, s))"

text \<open>\<^verbatim>\<open>.reset_index(drop=True)\<close>: a new frame with the same rows, renumbered.\<close>

definition reset_index :: "addr \<Rightarrow> addr action" where
  "reset_index a s = (case heap s a of Some f \<Rightarrow> new f s | None \<Rightarrow> (Inl KeyError, s))"

definition calcular_clutch_score_store :: "addr \<Rightarrow> addr action" where
  "calcular_clutch_score_store df =
     and_then (getitem_stats df) (\<lambda>X.
     and_then (scaler_fit_transform X) (\<lambda>scaled_data.
     let clutch_scores = dot scaled_data (map snd weights) in
     and_then (getitem_ids df) (\<lambda>sel.
     and_then (copy sel) (\<lambda>df_clutch.
     and_then (setitem_score df_clutch clutch_scores) (\<lambda>_.
     and_then (rank_score df_clutch) (\<lambda>ranks.
     and_then (setitem_rank df_clutch ranks) (\<lambda>_.
     and_then (sort_values df_clutch) (\<lambda>sorted.
     reset_index sorted))))))))"

text \<open>What the caller reads from the returned reference.\<close>

definition returned :: "(error + addr) \<times> store \<Rightarrow> error + clutch list" where
  "returned result =
     (case result of
        (Inl e, s) \<Rightarrow> Inl e
      | (Inr p, s) \<Rightarrow> (case heap s p of Some (Ranked rows) \<Rightarrow> Inr rows | _ \<Rightarrow> Inl KeyError))"

section \<open>The specification's vocabulary\<close>

text \<open>
  A record is complete for scoring when none of the six weighted columns is missing.
\<close>

definition stats_present :: "player \<Rightarrow> bool" where
  "stats_present r \<longleftrightarrow> (\<forall>c \<in> set (map fst weights). c r \<noteq> None)"

text \<open>
  The specification's standardization, in its own words: the mean of a column, its
  population standard deviation, and \<open>z = (value - mean) / std\<close>, with \<open>z = 0\<close> when the
  standard deviation is zero. These are stated independently of the scaler above, which
  they are compared with.
\<close>

definition spec_mean :: "real list \<Rightarrow> real" where
  "spec_mean xs = sum_list xs / real (length xs)"

definition spec_std :: "real list \<Rightarrow> real" where
  "spec_std xs = sqrt (sum_list (map (\<lambda>x. (x - spec_mean xs)\<^sup>2) xs) / real (length xs))"

definition spec_z :: "real list \<Rightarrow> real \<Rightarrow> real" where
  "spec_z xs v = (if spec_std xs = 0 then 0 else (v - spec_mean xs) / spec_std xs)"

text \<open>The values of a column of a table of complete records.\<close>

definition column_values :: "(player \<Rightarrow> real option) \<Rightarrow> player list \<Rightarrow> real list" where
  "column_values c df = map (\<lambda>r. the (c r)) df"

text \<open>
  \<open>score = 0.35*z_pts + 0.25*z_fg_pct + 0.15*z_ft_pct + 0.15*z_ast + 0.10*z_fg3_pct - 0.25*z_tov\<close>
\<close>

definition spec_score :: "player list \<Rightarrow> player \<Rightarrow> real" where
  "spec_score df r =
       0.35 * spec_z (column_values PTS df) (the (PTS r))
     + 0.25 * spec_z (column_values FG_PCT df) (the (FG_PCT r))
     + 0.15 * spec_z (column_values FT_PCT df) (the (FT_PCT r))
     + 0.15 * spec_z (column_values AST df) (the (AST r))
     + 0.10 * spec_z (column_values FG3_PCT df) (the (FG3_PCT r))
     - 0.25 * spec_z (column_values TOV df) (the (TOV r))"

text \<open>
  The number of result rows with a strictly greater score, and with the same score.
\<close>

definition count_greater :: "clutch list \<Rightarrow> real \<Rightarrow> nat" where
  "count_greater rows s =
     length (filter (\<lambda>x. case CLUTCH_SCORE x of None \<Rightarrow> False | Some u \<Rightarrow> s < u) rows)"

definition count_equal :: "clutch list \<Rightarrow> real \<Rightarrow> nat" where
  "count_equal rows s = length (filter (\<lambda>x. CLUTCH_SCORE x = Some s) rows)"

text \<open>A row of an array, or a vector, without its entry \<open>j\<close>.\<close>

definition drop_column :: "nat \<Rightarrow> 'a list \<Rightarrow> 'a list" where
  "drop_column j xs = take j xs @ drop (Suc j) xs"

text \<open>The specification's score without the term of column \<open>j\<close> of the weights.\<close>

definition spec_score_without :: "nat \<Rightarrow> player list \<Rightarrow> player \<Rightarrow> real" where
  "spec_score_without j df r =
     sum_list (map (\<lambda>(c, w). w * spec_z (column_values c df) (the (c r))) (drop_column j weights))"

section \<open>Row-wise view of the computation\<close>

text \<open>
  The functions of this section describe one cell and one row of what
  \<^const>\<open>calcular_clutch_score\<close> computes on whole arrays; the lemmas
  \<open>fit_transform_select_columns\<close>, \<open>df_clutch_rows\<close> and \<open>calcular_clutch_score_rows\<close>
  prove that they agree with it.
\<close>

definition scaled_cell :: "real option list \<Rightarrow> real option \<Rightarrow> real option" where
  "scaled_cell col x =
     nan2 (/) (nan2 (-) x (nanmean col)) (handle_zeros_in_scale (map_option sqrt (nanvar col)))"

definition record_score :: "player list \<Rightarrow> player \<Rightarrow> real option" where
  "record_score df r =
     foldl (nan2 (+)) (Some 0)
       (map (\<lambda>(c, w). nan2 (*) (scaled_cell (map c df) (c r)) (Some w)) weights)"

definition clutch_scores :: "player list \<Rightarrow> real option list" where
  "clutch_scores df = map (record_score df) df"

definition average_rank :: "real list \<Rightarrow> real \<Rightarrow> real" where
  "average_rank vs v =
     real (length (filter (\<lambda>u. v < u) vs)) + (real (length (filter (\<lambda>u. u = v) vs)) + 1) / 2"

definition clutch_row :: "player list \<Rightarrow> player \<Rightarrow> clutch" where
  "clutch_row df r =
     \<lparr>PLAYER_NAME = PLAYER_NAME r, TEAM_ABBREVIATION = TEAM_ABBREVIATION r,
      CLUTCH_SCORE = record_score df r,
      CLUTCH_RANK = map_option (average_rank (present (clutch_scores df))) (record_score df r)\<rparr>"

section \<open>Example tables\<close>

text \<open>
  Two complete records; a third that ties with the first; one with a missing
  \<^verbatim>\<open>PTS\<close>; one of a team that is not requested; and a store in which the caller's
  frame holds the first two.
\<close>

definition player_P :: player where
  "player_P = \<lparr>PLAYER_NAME = Some ''P'', TEAM_ABBREVIATION = Some ''LAL'',
     FG_PCT = Some 0.5, FG3_PCT = Some 0.4, FT_PCT = Some 0.8, AST = Some 5, TOV = Some 3, PTS = Some 30\<rparr>"

definition player_Q :: player where
  "player_Q = \<lparr>PLAYER_NAME = Some ''Q'', TEAM_ABBREVIATION = Some ''BOS'',
     FG_PCT = Some 0.4, FG3_PCT = Some 0.4, FT_PCT = Some 0.9, AST = Some 8, TOV = Some 1, PTS = Some 20\<rparr>"

definition player_T :: player where
  "player_T = player_P\<lparr>PLAYER_NAME := Some ''T''\<rparr>"

definition player_N :: player where
  "player_N = player_Q\<lparr>PLAYER_NAME := Some ''N'', PTS := None\<rparr>"

definition player_M :: player where
  "player_M = player_Q\<lparr>PLAYER_NAME := Some ''M'', TEAM_ABBREVIATION := Some ''MIA''\<rparr>"

definition store_0 :: store where
  "store_0 = \<lparr>heap = [0 \<mapsto> Players [player_Q, player_P]], next_addr = 1\<rparr>"

text \<open>A store in which the frame has one row and the two identifying columns only.\<close>

definition store_ids :: store where
  "store_ids = \<lparr>heap = [0 \<mapsto> Identified [\<lparr>PLAYER_NAME = Some ''P'', TEAM_ABBREVIATION = Some ''LAL''\<rparr>]],
                 next_addr = 1\<rparr>"

text \<open>The double nearest to 0.40 (lemma \<open>float64_0_40\<close>).\<close>

definition double_0_40 :: real where
  "double_0_40 = 3602879701896397 / 2 ^ 53"

section \<open>The scaler and the scores, row by row\<close>

lemma columns_select_columns:
  assumes "df \<noteq> []"
  shows "map (\<lambda>j. column j (select_columns cols df)) [0..<length (hd (select_columns cols df))]
         = map (\<lambda>c. map c df) cols"
proof -
  from assms obtain r rs where df: "df = r # rs" by (cases df) auto
  have len: "length (hd (select_columns cols df)) = length cols"
    by (simp add: df select_columns_def)
  have "column j (select_columns cols df) = map (cols ! j) df" if "j < length cols" for j
    using that by (simp add: column_def select_columns_def)
  then have "map (\<lambda>j. column j (select_columns cols df)) [0..<length cols]
             = map (\<lambda>j. map (cols ! j) df) [0..<length cols]"
    by simp
  also have "\<dots> = map (\<lambda>c. map c df) (map (\<lambda>j. cols ! j) [0..<length cols])"
    by (simp add: comp_def)
  also have "\<dots> = map (\<lambda>c. map c df) cols"
    by (simp only: map_nth)
  finally show ?thesis by (simp only: len)
qed

lemma zip3_map: "zip (map f xs) (zip (map g xs) (map h xs)) = map (\<lambda>x. (f x, g x, h x)) xs"
  by (induction xs) auto

lemma fit_transform_select_columns:
  assumes "df \<noteq> []"
  shows "fit_transform (select_columns cols df)
         = Inr (map (\<lambda>r. map (\<lambda>c. scaled_cell (map c df) (c r)) cols) df)"
proof -
  have ne: "select_columns cols df \<noteq> []"
    using assms by (simp add: select_columns_def)
  have "fit_transform (select_columns cols df) =
    Inr (map (\<lambda>row. map (\<lambda>(x, m, s). nan2 (/) (nan2 (-) x m) s)
      (zip row (zip (map nanmean (map (\<lambda>c. map c df) cols))
         (map (\<lambda>c. handle_zeros_in_scale (map_option sqrt (nanvar c))) (map (\<lambda>c. map c df) cols)))))
       (select_columns cols df))"
    using ne by (simp add: fit_transform_def fit_def transform_def Let_def columns_select_columns [OF assms])
  also have "\<dots> = Inr (map (\<lambda>r. map (\<lambda>c. scaled_cell (map c df) (c r)) cols) df)"
    by (simp add: select_columns_def zip3_map scaled_cell_def comp_def)
  finally show ?thesis .
qed

lemma dot_weights:
  "dot (map (\<lambda>r. map (\<lambda>c. f c r) (map fst ws)) df) (map snd ws)
   = map (\<lambda>r. foldl (nan2 (+)) (Some 0) (map (\<lambda>(c, w). nan2 (*) (f c r) (Some w)) ws)) df"
  by (simp add: dot_def comp_def zip_map_map case_prod_unfold zip_same_conv_map)

lemma stats_present_iff:
  "stats_present r \<longleftrightarrow>
     PTS r \<noteq> None \<and> FG_PCT r \<noteq> None \<and> FT_PCT r \<noteq> None \<and> AST r \<noteq> None \<and> FG3_PCT r \<noteq> None \<and> TOV r \<noteq> None"
  by (simp add: stats_present_def weights_def)

lemma present_all:
  assumes "\<forall>r\<in>set df. c r \<noteq> None"
  shows "present (map c df) = column_values c df"
  using assms by (induction df) (auto simp: present_def column_values_def)

lemma sum_squares_zero:
  fixes xs :: "real list"
  assumes "sum_list (map (\<lambda>x. (x - m)\<^sup>2) xs) = 0" and "x \<in> set xs"
  shows "x = m"
proof -
  have "\<forall>y\<in>set (map (\<lambda>x. (x - m)\<^sup>2) xs). y = 0"
    using assms(1) by (subst (asm) sum_list_nonneg_eq_0_iff) auto
  with assms(2) show ?thesis by auto
qed

lemma spec_std_zero:
  assumes "spec_std xs = 0" and "x \<in> set xs"
  shows "x = spec_mean xs"
proof -
  have "xs \<noteq> []" using assms(2) by auto
  then have "sum_list (map (\<lambda>x. (x - spec_mean xs)\<^sup>2) xs) = 0"
    using assms(1) by (simp add: spec_std_def)
  then show ?thesis using assms(2) by (rule sum_squares_zero)
qed

lemma scaled_cell_complete:
  assumes all: "\<forall>r\<in>set df. c r \<noteq> None" and r: "r \<in> set df"
  shows "scaled_cell (map c df) (c r) = Some (spec_z (column_values c df) (the (c r)))"
proof -
  from all r obtain v where v: "c r = Some v" by auto
  have ne: "column_values c df \<noteq> []" using r by (auto simp: column_values_def)
  have vin: "v \<in> set (column_values c df)"
    using r v by (force simp: column_values_def)
  have m: "nanmean (map c df) = Some (spec_mean (column_values c df))"
    using ne by (simp add: nanmean_def present_all [OF all] spec_mean_def Let_def)
  have s: "map_option sqrt (nanvar (map c df)) = Some (spec_std (column_values c df))"
    by (simp add: nanvar_def m present_all [OF all] spec_std_def Let_def)
  show ?thesis
  proof (cases "spec_std (column_values c df) = 0")
    case True
    then have "v = spec_mean (column_values c df)" using vin by (rule spec_std_zero)
    then show ?thesis
      using True by (simp add: scaled_cell_def m s v nan2_def handle_zeros_in_scale_def spec_z_def)
  next
    case False
    then show ?thesis
      by (simp add: scaled_cell_def m s v nan2_def handle_zeros_in_scale_def spec_z_def)
  qed
qed

lemma calcular_clutch_score_nonempty:
  assumes "df \<noteq> []"
  shows "calcular_clutch_score df =
           Inr (sort_values_descending
                  (assign_columns df (clutch_scores df) (rank_descending (clutch_scores df))))"
proof -
  have d: "dot (map (\<lambda>r. map (\<lambda>c. scaled_cell (map c df) (c r)) (map fst weights)) df)
             (map snd weights) = clutch_scores df"
    unfolding clutch_scores_def record_score_def by (rule dot_weights)
  show ?thesis
    by (simp only: calcular_clutch_score_def fit_transform_select_columns [OF assms]
        sum.case Let_def d)
qed

lemma clutch_scores_complete:
  assumes "\<forall>r\<in>set df. stats_present r"
  shows "clutch_scores df = map (\<lambda>r. Some (spec_score df r)) df"
proof -
  have c: "\<forall>r\<in>set df. c r \<noteq> None" if "c \<in> set (map fst weights)" for c
    using assms that by (auto simp: stats_present_def)
  have "record_score df r = Some (spec_score df r)" if "r \<in> set df" for r
    using that c
    by (simp add: record_score_def weights_def scaled_cell_complete nan2_def spec_score_def)
  then show ?thesis by (simp add: clutch_scores_def)
qed

lemma rank_descending_average_rank:
  "rank_descending xs = map (map_option (average_rank (present xs))) xs"
  by (auto simp: rank_descending_def average_rank_def split: option.splits)

lemma length_filter_mset:
  assumes "mset xs = mset ys"
  shows "length (filter P xs) = length (filter P ys)"
proof -
  have "size (filter_mset P (mset xs)) = size (filter_mset P (mset ys))"
    using assms by simp
  then show ?thesis by (simp only: mset_filter [symmetric] size_mset)
qed

lemma average_rank_mset:
  "mset vs = mset vs' \<Longrightarrow> average_rank vs v = average_rank vs' v"
  by (simp add: average_rank_def length_filter_mset [of vs vs'])

lemma length_filter_disjoint:
  assumes "\<And>x. P x \<Longrightarrow> R x" "\<And>x. Q x \<Longrightarrow> R x" "\<And>x. P x \<Longrightarrow> \<not> Q x"
  shows "length (filter P xs) + length (filter Q xs) \<le> length (filter R xs)"
  using assms by (induction xs) auto

lemma length_filter_pos:
  assumes "x \<in> set xs" and "P x"
  shows "1 \<le> length (filter P xs)"
  using assms by (induction xs) auto

lemma average_less_arith:
  fixes g e g' e' :: real
  assumes "g + e \<le> g'" "1 \<le> e" "0 \<le> e'"
  shows "g + (e + 1) / 2 < g' + (e' + 1) / 2"
  using assms by (simp add: field_simps)

lemma average_ge_1_arith:
  fixes g e :: real
  assumes "1 \<le> e" "0 \<le> g"
  shows "1 \<le> g + (e + 1) / 2"
  using assms by (simp add: field_simps)

lemma average_rank_less:
  assumes "s' < s" and "s \<in> set vs"
  shows "average_rank vs s < average_rank vs s'"
proof -
  let ?g = "length (filter (\<lambda>u. s < u) vs)"
  let ?e = "length (filter (\<lambda>u. u = s) vs)"
  let ?g' = "length (filter (\<lambda>u. s' < u) vs)"
  let ?e' = "length (filter (\<lambda>u. u = s') vs)"
  have "?g + ?e \<le> ?g'"
    using assms(1) by (intro length_filter_disjoint) auto
  then have "real ?g + real ?e \<le> real ?g'"
    by (simp only: of_nat_add [symmetric] of_nat_le_iff)
  moreover have "1 \<le> real ?e"
    using length_filter_pos [of s vs "\<lambda>u. u = s"] assms(2) by simp
  moreover have "0 \<le> real ?e'" by simp
  ultimately show ?thesis
    unfolding average_rank_def by (rule average_less_arith)
qed

lemma average_rank_ge_1:
  assumes "s \<in> set vs"
  shows "1 \<le> average_rank vs s"
proof -
  have "1 \<le> real (length (filter (\<lambda>u. u = s) vs))"
    using length_filter_pos [of s vs "\<lambda>u. u = s"] assms by simp
  moreover have "0 \<le> real (length (filter (\<lambda>u. s < u) vs))" by simp
  ultimately show ?thesis
    unfolding average_rank_def by (rule average_ge_1_arith)
qed

lemma map_assign_columns:
  assumes "length df = length scores" "length scores = length ranks"
  shows "map CLUTCH_SCORE (assign_columns df scores ranks) = scores"
    and "map CLUTCH_RANK (assign_columns df scores ranks) = ranks"
    and "map PLAYER_NAME (assign_columns df scores ranks) = map PLAYER_NAME df"
    and "map TEAM_ABBREVIATION (assign_columns df scores ranks) = map TEAM_ABBREVIATION df"
  using assms
  by (induction df scores ranks rule: list_induct3) (simp_all add: assign_columns_def)

lemma mset_sort_values_descending: "mset (sort_values_descending rows) = mset rows"
  by (simp add: sort_values_descending_def not_None_eq [symmetric] del: not_None_eq)

lemma assign_columns_map:
  "assign_columns xs (map f xs) (map h xs)
   = map (\<lambda>r. \<lparr>PLAYER_NAME = PLAYER_NAME r, TEAM_ABBREVIATION = TEAM_ABBREVIATION r,
                 CLUTCH_SCORE = f r, CLUTCH_RANK = h r\<rparr>) xs"
  by (induction xs) (simp_all add: assign_columns_def)

lemma df_clutch_rows:
  "assign_columns df (clutch_scores df) (rank_descending (clutch_scores df))
   = map (clutch_row df) df"
proof -
  have "rank_descending (clutch_scores df)
        = map (\<lambda>r. map_option (average_rank (present (clutch_scores df))) (record_score df r)) df"
    by (simp add: rank_descending_average_rank) (simp add: clutch_scores_def)
  then have "assign_columns df (clutch_scores df) (rank_descending (clutch_scores df))
        = assign_columns df (map (record_score df) df)
            (map (\<lambda>r. map_option (average_rank (present (clutch_scores df))) (record_score df r)) df)"
    by (simp add: clutch_scores_def)
  also have "\<dots> = map (clutch_row df) df"
    by (simp add: assign_columns_map clutch_row_def)
  finally show ?thesis .
qed

lemma calcular_clutch_score_rows:
  assumes "df \<noteq> []"
  shows "calcular_clutch_score df = Inr (sort_values_descending (map (clutch_row df) df))"
  by (simp only: calcular_clutch_score_nonempty [OF assms] df_clutch_rows)

lemma record_score_complete:
  assumes "\<forall>r\<in>set df. stats_present r" and "r \<in> set df"
  shows "record_score df r = Some (spec_score df r)"
proof -
  have "map (record_score df) df = map (\<lambda>r. Some (spec_score df r)) df"
    using clutch_scores_complete [OF assms(1)] by (simp add: clutch_scores_def)
  with assms(2) show ?thesis by simp
qed

section \<open>Ranks and order of the result rows\<close>

lemma sort_values_descending_complete:
  assumes "\<forall>r\<in>set rows. CLUTCH_SCORE r \<noteq> None"
  shows "sort_values_descending rows = sort_key (\<lambda>r. - the (CLUTCH_SCORE r)) rows"
proof -
  have "filter (\<lambda>r. CLUTCH_SCORE r \<noteq> None) rows = rows"
    using assms by (simp add: filter_id_conv del: not_None_eq)
  moreover have "filter (\<lambda>r. CLUTCH_SCORE r = None) rows = []"
    using assms by (simp add: filter_empty_conv del: not_None_eq)
  ultimately show ?thesis by (simp add: sort_values_descending_def del: not_None_eq)
qed

lemma clutch_row_projections:
  "PLAYER_NAME (clutch_row df r) = PLAYER_NAME r"
  "TEAM_ABBREVIATION (clutch_row df r) = TEAM_ABBREVIATION r"
  "CLUTCH_SCORE (clutch_row df r) = record_score df r"
  "CLUTCH_RANK (clutch_row df r)
     = map_option (average_rank (present (clutch_scores df))) (record_score df r)"
  by (simp_all add: clutch_row_def)

lemma mset_map_sort_values_descending:
  "mset (map f (sort_values_descending rows)) = mset (map f rows)"
  by (simp only: mset_map mset_sort_values_descending)

lemma count_greater_present:
  "count_greater rows s = length (filter (\<lambda>u. s < u) (present (map CLUTCH_SCORE rows)))"
  by (induction rows) (auto simp: count_greater_def present_def split: option.splits)

lemma count_equal_present:
  "count_equal rows s = length (filter (\<lambda>u. u = s) (present (map CLUTCH_SCORE rows)))"
  by (induction rows) (auto simp: count_equal_def present_def split: option.splits)

lemma average_rank_counts:
  "average_rank (present (map CLUTCH_SCORE rows)) s
   = real (count_greater rows s) + (real (count_equal rows s) + 1) / 2"
  by (simp add: average_rank_def count_greater_present count_equal_present)

lemma counts_mset:
  assumes "mset rows = mset rows'"
  shows "count_greater rows s = count_greater rows' s"
    and "count_equal rows s = count_equal rows' s"
  unfolding count_greater_def count_equal_def
  by (rule length_filter_mset [OF assms])+

lemma map_score_clutch_rows: "map CLUTCH_SCORE (map (clutch_row df) df) = clutch_scores df"
  by (simp add: clutch_scores_def clutch_row_projections)

lemma output_row_rank:
  assumes "x \<in> set (sort_values_descending (map (clutch_row df) df))"
    and "CLUTCH_SCORE x = Some s"
  shows "CLUTCH_RANK x
         = Some (real (count_greater (sort_values_descending (map (clutch_row df) df)) s)
                 + (real (count_equal (sort_values_descending (map (clutch_row df) df)) s) + 1) / 2)"
proof -
  let ?rows = "map (clutch_row df) df"
  have "set (sort_values_descending ?rows) = set ?rows"
    using mset_sort_values_descending [of ?rows] by (rule mset_eq_setD)
  with assms(1) obtain r where r: "r \<in> set df" "x = clutch_row df r" by auto
  with assms(2) have "record_score df r = Some s"
    by (simp add: clutch_row_projections)
  then have "CLUTCH_RANK x = Some (average_rank (present (clutch_scores df)) s)"
    using r by (simp add: clutch_row_projections)
  then have "CLUTCH_RANK x = Some (average_rank (present (map CLUTCH_SCORE ?rows)) s)"
    by (simp only: map_score_clutch_rows)
  also have "\<dots> = Some (real (count_greater ?rows s) + (real (count_equal ?rows s) + 1) / 2)"
    by (simp only: average_rank_counts)
  finally show ?thesis
    by (simp only: counts_mset [OF mset_sort_values_descending])
qed

lemma output_row_score:
  assumes "\<forall>r\<in>set df. stats_present r"
    and "x \<in> set (sort_values_descending (map (clutch_row df) df))"
  shows "\<exists>s. CLUTCH_SCORE x = Some s"
proof -
  let ?rows = "map (clutch_row df) df"
  have "set (sort_values_descending ?rows) = set ?rows"
    using mset_sort_values_descending [of ?rows] by (rule mset_eq_setD)
  with assms(2) obtain r where r: "r \<in> set df" "x = clutch_row df r" by auto
  then show ?thesis
    using record_score_complete [OF assms(1) r(1)] by (simp add: clutch_row_projections)
qed

lemma count_equal_pos:
  assumes "x \<in> set rows" and "CLUTCH_SCORE x = Some s"
  shows "1 \<le> count_equal rows s"
  unfolding count_equal_def using assms by (intro length_filter_pos [of x]) auto

lemma count_greater_plus_equal:
  assumes "t < s"
  shows "count_greater rows s + count_equal rows s \<le> count_greater rows t"
  unfolding count_greater_def count_equal_def
  using assms by (intro length_filter_disjoint) (auto split: option.splits)

lemma rank_formula_less:
  assumes "t < s" and "x \<in> set rows" and "CLUTCH_SCORE x = Some s"
  shows "real (count_greater rows s) + (real (count_equal rows s) + 1) / 2
         < real (count_greater rows t) + (real (count_equal rows t) + 1) / 2"
proof (rule average_less_arith)
  have "count_greater rows s + count_equal rows s \<le> count_greater rows t"
    using assms(1) by (rule count_greater_plus_equal)
  then show "real (count_greater rows s) + real (count_equal rows s) \<le> real (count_greater rows t)"
    by (simp only: of_nat_add [symmetric] of_nat_le_iff)
  show "1 \<le> real (count_equal rows s)"
    using count_equal_pos [OF assms(2,3)] by simp
  show "0 \<le> real (count_equal rows t)" by simp
qed

lemma sort_key_adjacent:
  fixes f :: "'a \<Rightarrow> real"
  assumes "Suc i < length xs"
  shows "f (sort_key f xs ! i) \<le> f (sort_key f xs ! Suc i)"
proof -
  have "sorted (map f (sort_key f xs))" by (rule sorted_sort_key)
  moreover have "Suc i < length (map f (sort_key f xs))" using assms by simp
  ultimately have "map f (sort_key f xs) ! i \<le> map f (sort_key f xs) ! Suc i"
    by (intro sorted_nth_mono) simp_all
  then show ?thesis using assms by simp
qed

section \<open>Missing values and constant columns\<close>

lemma record_score_present_iff:
  assumes "r \<in> set df"
  shows "record_score df r \<noteq> None \<longleftrightarrow> stats_present r"
proof -
  have cell: "scaled_cell (map c df) (c r) \<noteq> None \<longleftrightarrow> c r \<noteq> None" for c
  proof (cases "c r")
    case None
    then show ?thesis by (simp add: scaled_cell_def nan2_def)
  next
    case (Some v)
    then have "Some v \<in> set (map c df)" using assms by force
    then have "present (map c df) \<noteq> []"
      by (induction df) (auto simp: present_def split: option.splits)
    then show ?thesis
      using Some
      by (simp add: scaled_cell_def nan2_def nanmean_def nanvar_def handle_zeros_in_scale_def Let_def)
  qed
  show ?thesis
    using cell [of PTS] cell [of FG_PCT] cell [of FT_PCT] cell [of AST] cell [of FG3_PCT] cell [of TOV]
    by (auto simp add: record_score_def weights_def stats_present_iff nan2_def split: option.splits)
qed

lemma fit_select_columns:
  assumes "df \<noteq> []"
  shows "fit (select_columns cols df)
         = Inr \<lparr>scaler_mean = map (\<lambda>c. nanmean (map c df)) cols,
                scaler_var = map (\<lambda>c. nanvar (map c df)) cols,
                scaler_scale = map (\<lambda>c. handle_zeros_in_scale (map_option sqrt (nanvar (map c df)))) cols\<rparr>"
proof -
  have ne: "select_columns cols df \<noteq> []"
    using assms by (simp add: select_columns_def)
  show ?thesis
    using ne by (simp add: fit_def Let_def columns_select_columns [OF assms] comp_def)
qed

lemma handle_zeros_in_scale_nonzero: "handle_zeros_in_scale x \<noteq> Some 0"
  by (simp add: handle_zeros_in_scale_def split: option.splits)

lemma spec_mean_constant:
  assumes "xs \<noteq> []" and "\<forall>x\<in>set xs. x = a"
  shows "spec_mean xs = a"
proof -
  have "sum_list xs = real (length xs) * a"
    using assms(2) by (induction xs) (simp_all add: algebra_simps)
  then show ?thesis using assms(1) by (simp add: spec_mean_def)
qed

lemma spec_std_constant:
  assumes "xs \<noteq> []" and "\<forall>x\<in>set xs. x = a"
  shows "spec_std xs = 0"
proof -
  have m: "spec_mean xs = a" using assms by (rule spec_mean_constant)
  have "sum_list (map (\<lambda>x. (x - a)\<^sup>2) xs) = 0"
    using assms(2) by (induction xs) simp_all
  then show ?thesis by (simp add: spec_std_def m)
qed

lemma nanvar_complete:
  assumes "df \<noteq> []" and "\<forall>r\<in>set df. c r \<noteq> None"
  shows "map_option sqrt (nanvar (map c df)) = Some (spec_std (column_values c df))"
proof -
  have ne: "column_values c df \<noteq> []" using assms(1) by (simp add: column_values_def)
  have m: "nanmean (map c df) = Some (spec_mean (column_values c df))"
    using ne by (simp add: nanmean_def present_all [OF assms(2)] spec_mean_def Let_def)
  show ?thesis
    by (simp add: nanvar_def m present_all [OF assms(2)] spec_std_def Let_def)
qed

lemma dot_row_drop_column:
  assumes "j < length row" and "length row = length w" and "row ! j = Some 0"
  shows "foldl (nan2 (+)) a (map (\<lambda>(x, b). nan2 (*) x (Some b)) (zip row w))
         = foldl (nan2 (+)) a (map (\<lambda>(x, b). nan2 (*) x (Some b))
                                 (zip (drop_column j row) (drop_column j w)))"
  using assms
proof (induction j arbitrary: row w a)
  case 0
  then obtain x xs b bs where "row = x # xs" "w = b # bs"
    by (cases row; cases w) auto
  with 0 show ?case
    by (cases a) (simp_all add: drop_column_def nan2_def)
next
  case (Suc j)
  then obtain x xs b bs where rw: "row = x # xs" "w = b # bs"
    by (cases row; cases w) auto
  with Suc.prems have "j < length xs" "length xs = length bs" "xs ! j = Some 0" by simp_all
  from Suc.IH [OF this] show ?case
    by (simp add: rw drop_column_def)
qed

section \<open>Evaluation on the example tables\<close>

lemmas model_defs = calcular_clutch_score_def fit_transform_def fit_def select_columns_def weights_def
  column_def nanmean_def nanvar_def present_def handle_zeros_in_scale_def transform_def dot_def
  nan2_def rank_descending_def assign_columns_def sort_values_descending_def Let_def

lemmas example_defs = player_P_def player_Q_def player_T_def player_N_def player_M_def

lemma sqrt_values: "sqrt 25 = 5" "sqrt (1/400) = 1/20" "sqrt (9/4) = 3/2"
  by (rule real_sqrt_unique; simp add: power2_eq_square)+

lemma example_present:
  "stats_present player_P" "stats_present player_Q" "stats_present player_T"
  "\<not> stats_present player_N"
  by (simp_all add: stats_present_iff example_defs)

lemma example_two_players:
  "calcular_clutch_score [player_Q, player_P] =
     Inr [\<lparr>PLAYER_NAME = Some ''P'', TEAM_ABBREVIATION = Some ''LAL'',
            CLUTCH_SCORE = Some (1 / 20), CLUTCH_RANK = Some 1\<rparr>,
          \<lparr>PLAYER_NAME = Some ''Q'', TEAM_ABBREVIATION = Some ''BOS'',
            CLUTCH_SCORE = Some (- (1 / 20)), CLUTCH_RANK = Some 2\<rparr>]"
  by (simp add: model_defs example_defs power2_eq_square sqrt_values del: not_None_eq)

lemma example_tied_players:
  "calcular_clutch_score [player_P, player_T] =
     Inr [\<lparr>PLAYER_NAME = Some ''P'', TEAM_ABBREVIATION = Some ''LAL'',
            CLUTCH_SCORE = Some 0, CLUTCH_RANK = Some (3 / 2)\<rparr>,
          \<lparr>PLAYER_NAME = Some ''T'', TEAM_ABBREVIATION = Some ''LAL'',
            CLUTCH_SCORE = Some 0, CLUTCH_RANK = Some (3 / 2)\<rparr>]"
  by (simp add: model_defs example_defs power2_eq_square del: not_None_eq)

section \<open>The store version agrees with the function\<close>

lemmas store_defs = calcular_clutch_score_store_def and_then_def new_def getitem_stats_def
  scaler_fit_transform_def getitem_ids_def copy_def setitem_score_def rank_score_def
  setitem_rank_def sort_values_def reset_index_def

lemma scored_rows:
  assumes "length rows = length scores"
  shows "map CLUTCH_SCORE
           (map (\<lambda>(r, v). player_id.extend r \<lparr>CLUTCH_SCORE = v\<rparr>)
              (zip (map (\<lambda>r. \<lparr>PLAYER_NAME = PLAYER_NAME r,
                                 TEAM_ABBREVIATION = TEAM_ABBREVIATION r\<rparr>) rows) scores))
         = scores"
  using assms by (induction rows scores rule: list_induct2) (simp_all add: player_id.defs scored.defs)

lemma scored_rows_comp:
  assumes "length rows = length scores"
  shows "map (CLUTCH_SCORE \<circ> (\<lambda>(r, v). player_id.extend r \<lparr>CLUTCH_SCORE = v\<rparr>))
           (zip (map (\<lambda>r. \<lparr>PLAYER_NAME = PLAYER_NAME r,
                              TEAM_ABBREVIATION = TEAM_ABBREVIATION r\<rparr>) rows) scores)
         = scores"
  using scored_rows [OF assms] by (simp only: map_map)

lemma ranked_rows:
  assumes "length rows = length scores" and "length scores = length ranks"
  shows "map (\<lambda>(r, v). scored.extend r \<lparr>CLUTCH_RANK = v\<rparr>)
           (zip (map (\<lambda>(r, v). player_id.extend r \<lparr>CLUTCH_SCORE = v\<rparr>)
                   (zip (map (\<lambda>r. \<lparr>PLAYER_NAME = PLAYER_NAME r,
                                      TEAM_ABBREVIATION = TEAM_ABBREVIATION r\<rparr>) rows) scores))
                ranks)
         = assign_columns rows scores ranks"
  using assms
  by (induction rows scores ranks rule: list_induct3)
     (simp_all add: assign_columns_def player_id.defs scored.defs clutch.defs)

lemma length_dot: "length (dot A w) = length A"
  by (simp add: dot_def)

lemma length_rank_descending: "length (rank_descending xs) = length xs"
  by (simp add: rank_descending_def)

lemma run_store_empty:
  assumes "heap s df = Some (Players [])"
  shows "calcular_clutch_score_store df s
         = (Inl ValueError, \<lparr>heap = (heap s)(next_addr s \<mapsto> Selected []), next_addr = Suc (next_addr s)\<rparr>)"
  using assms
  by (simp add: store_defs select_columns_def fit_transform_def fit_def)

lemma run_store_nonempty:
  assumes "heap s df = Some (Players rows)" and "df < next_addr s" and "rows \<noteq> []"
    and "fit_transform (select_columns (map fst weights) rows) = Inr Z"
  shows "\<exists>h. calcular_clutch_score_store df s
             = (Inr (next_addr s + 4), \<lparr>heap = h, next_addr = next_addr s + 5\<rparr>) \<and>
             h (next_addr s + 4)
               = Some (Ranked (sort_values_descending
                   (assign_columns rows (dot Z (map snd weights))
                      (rank_descending (dot Z (map snd weights)))))) \<and>
             (\<forall>a<next_addr s. h a = heap s a)"
proof -
  have lz: "length Z = length rows"
    using assms(4) fit_transform_select_columns [OF assms(3), of "map fst weights"] by auto
  let ?scores = "dot Z (map snd weights)"
  have l1: "length rows = length ?scores" by (simp add: length_dot lz)
  have l2: "length ?scores = length (rank_descending ?scores)" by (simp add: length_rank_descending)
  show ?thesis
    using assms(1,2) assms(4) l1 l2
    by (simp add: store_defs Let_def scored_rows_comp ranked_rows length_dot lz
        length_rank_descending)
qed

lemma run_store:
  assumes "heap s df = Some (Players rows)" and "df < next_addr s"
  shows "returned (calcular_clutch_score_store df s) = calcular_clutch_score rows"
    and "\<forall>a<next_addr s. heap (snd (calcular_clutch_score_store df s)) a = heap s a"
    and "next_addr s \<le> next_addr (snd (calcular_clutch_score_store df s))"
proof -
  show "returned (calcular_clutch_score_store df s) = calcular_clutch_score rows"
  proof (cases "rows = []")
    case True
    with assms(1) show ?thesis
      by (simp add: run_store_empty returned_def calcular_clutch_score_def select_columns_def
          fit_transform_def fit_def)
  next
    case False
    then obtain Z where Z: "fit_transform (select_columns (map fst weights) rows) = Inr Z"
      using fit_transform_select_columns by blast
    from run_store_nonempty [OF assms False Z] show ?thesis
      by (auto simp: returned_def calcular_clutch_score_def Z Let_def)
  qed
  show "\<forall>a<next_addr s. heap (snd (calcular_clutch_score_store df s)) a = heap s a"
  proof (cases "rows = []")
    case True
    with assms show ?thesis by (simp add: run_store_empty)
  next
    case False
    then obtain Z where Z: "fit_transform (select_columns (map fst weights) rows) = Inr Z"
      using fit_transform_select_columns by blast
    from run_store_nonempty [OF assms False Z] show ?thesis by auto
  qed
  show "next_addr s \<le> next_addr (snd (calcular_clutch_score_store df s))"
  proof (cases "rows = []")
    case True
    with assms show ?thesis by (simp add: run_store_empty)
  next
    case False
    then obtain Z where Z: "fit_transform (select_columns (map fst weights) rows) = Inr Z"
      using fit_transform_select_columns by blast
    from run_store_nonempty [OF assms False Z] show ?thesis by auto
  qed
qed

section \<open>Columns that do not contribute, and the empty table\<close>

lemma calcular_clutch_score_empty: "calcular_clutch_score [] = Inl ValueError"
  by (simp add: calcular_clutch_score_def select_columns_def fit_transform_def fit_def)

lemma spec_score_sum_list:
  "spec_score df r = sum_list (map (\<lambda>(c, w). w * spec_z (column_values c df) (the (c r))) weights)"
  by (simp add: spec_score_def weights_def)

lemma sum_list_drop_column:
  fixes f :: "'a \<Rightarrow> real"
  assumes "j < length xs" and "f (xs ! j) = 0"
  shows "sum_list (map f xs) = sum_list (map f (drop_column j xs))"
proof -
  have "xs = take j xs @ xs ! j # drop (Suc j) xs"
    using assms(1) by (rule id_take_nth_drop)
  then have "sum_list (map f xs) = sum_list (map f (take j xs @ xs ! j # drop (Suc j) xs))"
    by simp
  also have "\<dots> = sum_list (map f (drop_column j xs))"
    using assms(2) by (simp add: drop_column_def)
  finally show ?thesis .
qed

lemma spec_score_constant_column:
  assumes "df \<noteq> []" and "\<forall>r\<in>set df. stats_present r" and "j < length weights"
    and "\<forall>r\<in>set df. fst (weights ! j) r = fst (weights ! j) (hd df)"
  shows "spec_score df r = spec_score_without j df r"
proof -
  let ?c = "fst (weights ! j)"
  have cin: "?c \<in> set (map fst weights)" using assms(3) nth_mem [of j "map fst weights"] by simp
  have pres: "\<forall>r\<in>set df. ?c r \<noteq> None"
    using assms(2) cin unfolding stats_present_def by blast
  obtain v where v: "?c (hd df) = Some v"
    using pres assms(1) by (cases df) auto
  have "\<forall>x\<in>set (column_values ?c df). x = v"
    using assms(4) v by (auto simp: column_values_def)
  moreover have "column_values ?c df \<noteq> []"
    using assms(1) by (simp add: column_values_def)
  ultimately have "spec_std (column_values ?c df) = 0"
    by (intro spec_std_constant) auto
  then have "(\<lambda>(c, w). w * spec_z (column_values c df) (the (c r))) (weights ! j) = 0"
    by (simp add: case_prod_unfold spec_z_def)
  with assms(3) show ?thesis
    unfolding spec_score_sum_list spec_score_without_def by (rule sum_list_drop_column)
qed

lemma returned_scores_constant_column:
  assumes "df \<noteq> []" and "\<forall>r\<in>set df. stats_present r" and "j < length weights"
    and "\<forall>r\<in>set df. fst (weights ! j) r = fst (weights ! j) (hd df)"
  shows "\<exists>out. calcular_clutch_score df = Inr out \<and>
           mset (map (\<lambda>x. (PLAYER_NAME x, TEAM_ABBREVIATION x, CLUTCH_SCORE x)) out)
           = mset (map (\<lambda>r. (PLAYER_NAME r, TEAM_ABBREVIATION r,
                               Some (spec_score_without j df r))) df)"
proof -
  let ?out = "sort_values_descending (map (clutch_row df) df)"
  have "map (\<lambda>x. (PLAYER_NAME x, TEAM_ABBREVIATION x, CLUTCH_SCORE x)) (map (clutch_row df) df)
        = map (\<lambda>r. (PLAYER_NAME r, TEAM_ABBREVIATION r, Some (spec_score_without j df r))) df"
    using assms(2) spec_score_constant_column [OF assms]
    by (simp add: clutch_row_projections record_score_complete)
  then have "mset (map (\<lambda>x. (PLAYER_NAME x, TEAM_ABBREVIATION x, CLUTCH_SCORE x)) ?out)
        = mset (map (\<lambda>r. (PLAYER_NAME r, TEAM_ABBREVIATION r, Some (spec_score_without j df r))) df)"
    by (simp only: mset_map_sort_values_descending)
  then show ?thesis
    using calcular_clutch_score_rows [OF assms(1)] by blast
qed

section \<open>Rounding on a constant column\<close>

lemma foldl_add_sum_list:
  fixes a :: real
  shows "foldl (\<lambda>a x. a + x) a xs = a + sum_list xs"
  by (induction xs arbitrary: a) simp_all

lemma present_map_Some: "present (map Some xs) = xs"
  by (induction xs) (simp_all add: present_def)

lemma nanmean_unrounded:
  assumes "xs \<noteq> []"
  shows "nanmean (map Some xs) = Some (rounded_mean (\<lambda>x. x) xs)"
  using assms
  by (simp add: nanmean_def present_map_Some rounded_mean_def rounded_sum_def foldl_add_sum_list)

lemma transform_cell_unrounded:
  "transform \<lparr>scaler_mean = [Some m], scaler_var = [v], scaler_scale = [Some s]\<rparr> [[Some x]]
   = [[Some (rounded_transform (\<lambda>x. x) m s x)]]"
  by (simp add: transform_def nan2_def rounded_transform_def)

lemma float64_binade:
  assumes "2 powr (of_int e) \<le> \<bar>x\<bar>" and "\<bar>x\<bar> < 2 powr (of_int (e + 1))"
  shows "float64 x = of_int (round_half_even (x / 2 powr (of_int (e - 52)))) * 2 powr (of_int (e - 52))"
proof -
  have pos: "0 < \<bar>x\<bar>"
    using assms(1) powr_gt_zero [of 2 "of_int e"] by linarith
  have "\<lfloor>log 2 \<bar>x\<bar>\<rfloor> = e"
    using assms pos by (subst floor_log_eq_powr_iff) (simp_all add: add.commute)
  moreover have "x \<noteq> 0" using pos by simp
  ultimately show ?thesis by (simp add: float64_def Let_def)
qed

lemma float64_0_40: "float64 (2 / 5) = double_0_40"
  by (subst float64_binade [where e = "-2"])
     (simp_all add: double_0_40_def round_half_even_def powr_neg_numeral Let_def)

lemma float_sum_0_40:
  "rounded_sum float64 [double_0_40, double_0_40, double_0_40] = 5404319552844596 / 2 ^ 52"
proof -
  have 1: "float64 (0 + double_0_40) = double_0_40"
    by (subst float64_binade [where e = "-2"])
       (simp_all add: double_0_40_def round_half_even_def powr_neg_numeral Let_def)
  have 2: "float64 (double_0_40 + double_0_40) = 3602879701896397 / 2 ^ 52"
    by (subst float64_binade [where e = "-1"])
       (simp_all add: double_0_40_def round_half_even_def powr_neg_numeral Let_def)
  have 3: "float64 (3602879701896397 / 2 ^ 52 + double_0_40) = 5404319552844596 / 2 ^ 52"
    by (subst float64_binade [where e = "0"])
       (simp_all add: double_0_40_def round_half_even_def powr_neg_numeral Let_def)
  show ?thesis by (simp only: rounded_sum_def foldl.simps 1 2 3)
qed

lemma float_mean_0_40:
  "rounded_mean float64 [double_0_40, double_0_40, double_0_40] = 7205759403792795 / 2 ^ 54"
proof -
  have "float64 (5404319552844596 / 2 ^ 52 / 3) = 7205759403792795 / 2 ^ 54"
    by (subst float64_binade [where e = "-2"])
       (simp_all add: round_half_even_def powr_neg_numeral Let_def)
  then show ?thesis by (simp add: rounded_mean_def float_sum_0_40)
qed

lemma float_transform_0_40:
  "rounded_transform float64 (rounded_mean float64 [double_0_40, double_0_40, double_0_40]) 1 double_0_40 = - (1 / 2 ^ 54)"
proof -
  have d: "double_0_40 - 7205759403792795 / 2 ^ 54 = - (1 / 2 ^ 54)"
    by (simp add: double_0_40_def)
  have r: "float64 (- (1 / 2 ^ 54)) = - (1 / 2 ^ 54)"
    by (subst float64_binade [where e = "-54"])
       (simp_all add: round_half_even_def powr_neg_numeral Let_def)
  show ?thesis by (simp only: rounded_transform_def float_mean_0_40 d r div_by_1)
qed

section \<open>Properties stated by the specification\<close>

subsection \<open>C1: the score is the weighted sum of the standardized stats\<close>

text \<open>
  C1. For every non-empty table of complete records the function returns, and the returned
  rows are the input records (name and team) each with the weighted sum of its six
  standardized stats as clutch score: weights 0.35 for PTS, 0.25 for FG\_PCT, 0.15 for
  FT\_PCT, 0.15 for AST, 0.10 for FG3\_PCT and -0.25 for TOV, a standardized value being
  (value - column mean) / column standard deviation, the deviation taken over the
  population, and 0 when that deviation is zero.
\<close>

theorem clutch_score_weighted_sum:
  assumes "df \<noteq> []" and "\<forall>r\<in>set df. stats_present r"
  shows "\<exists>out. calcular_clutch_score df = Inr out \<and>
           mset (map (\<lambda>x. (PLAYER_NAME x, TEAM_ABBREVIATION x, CLUTCH_SCORE x)) out)
           = mset (map (\<lambda>r. (PLAYER_NAME r, TEAM_ABBREVIATION r, Some (spec_score df r))) df)"
proof -
  let ?out = "sort_values_descending (map (clutch_row df) df)"
  have "map (\<lambda>x. (PLAYER_NAME x, TEAM_ABBREVIATION x, CLUTCH_SCORE x)) (map (clutch_row df) df)
        = map (\<lambda>r. (PLAYER_NAME r, TEAM_ABBREVIATION r, Some (spec_score df r))) df"
    using assms(2) by (simp add: clutch_row_projections record_score_complete)
  then have "mset (map (\<lambda>x. (PLAYER_NAME x, TEAM_ABBREVIATION x, CLUTCH_SCORE x)) ?out)
        = mset (map (\<lambda>r. (PLAYER_NAME r, TEAM_ABBREVIATION r, Some (spec_score df r))) df)"
    by (simp only: mset_map_sort_values_descending)
  then show ?thesis
    using calcular_clutch_score_rows [OF assms(1)] by blast
qed

theorem clutch_score_weighted_sum_witness:
  "stats_present player_Q \<and> stats_present player_P \<and>
   calcular_clutch_score [player_Q, player_P] =
     Inr [\<lparr>PLAYER_NAME = Some ''P'', TEAM_ABBREVIATION = Some ''LAL'',
            CLUTCH_SCORE = Some (1 / 20), CLUTCH_RANK = Some 1\<rparr>,
          \<lparr>PLAYER_NAME = Some ''Q'', TEAM_ABBREVIATION = Some ''BOS'',
            CLUTCH_SCORE = Some (- (1 / 20)), CLUTCH_RANK = Some 2\<rparr>] \<and>
   spec_score [player_Q, player_P] player_P = 1 / 20 \<and>
   spec_score [player_Q, player_P] player_Q = - (1 / 20)"
proof -
  have h1: "[player_Q, player_P] \<noteq> []" by simp
  have h2: "\<forall>r\<in>set [player_Q, player_P]. stats_present r"
    by (simp add: example_present)
  from clutch_score_weighted_sum [OF h1 h2]
  have "mset [(Some ''P'', Some ''LAL'', Some (1 / 20 :: real)),
              (Some ''Q'', Some ''BOS'', Some (- (1 / 20)))]
        = mset [(PLAYER_NAME player_Q, TEAM_ABBREVIATION player_Q,
                   Some (spec_score [player_Q, player_P] player_Q)),
                (PLAYER_NAME player_P, TEAM_ABBREVIATION player_P,
                   Some (spec_score [player_Q, player_P] player_P))]"
    by (simp add: example_two_players)
  then have "set [(Some ''P'', Some ''LAL'', Some (1 / 20 :: real)),
              (Some ''Q'', Some ''BOS'', Some (- (1 / 20)))]
        = set [(PLAYER_NAME player_Q, TEAM_ABBREVIATION player_Q,
                   Some (spec_score [player_Q, player_P] player_Q)),
                (PLAYER_NAME player_P, TEAM_ABBREVIATION player_P,
                   Some (spec_score [player_Q, player_P] player_P))]"
    by (rule mset_eq_setD)
  then have "spec_score [player_Q, player_P] player_P = 1 / 20 \<and>
             spec_score [player_Q, player_P] player_Q = - (1 / 20)"
    by (simp add: doubleton_eq_iff) (simp add: example_defs)
  then show ?thesis
    using example_present example_two_players by simp
qed

subsection \<open>C2: ranks\<close>

text \<open>
  C2 states standard competition ranking: a positive integer, the count of records with a
  strictly greater score plus 1. The code calls \<^verbatim>\<open>rank(ascending=False)\<close> with the default
  method, the average: two records with the same score, alone in the table, both get rank
  3/2, where no record has a greater score.
\<close>

theorem tied_scores_counterexample:
  "calcular_clutch_score [player_P, player_T] =
     Inr [\<lparr>PLAYER_NAME = Some ''P'', TEAM_ABBREVIATION = Some ''LAL'',
            CLUTCH_SCORE = Some 0, CLUTCH_RANK = Some (3 / 2)\<rparr>,
          \<lparr>PLAYER_NAME = Some ''T'', TEAM_ABBREVIATION = Some ''LAL'',
            CLUTCH_SCORE = Some 0, CLUTCH_RANK = Some (3 / 2)\<rparr>] \<and>
   count_greater
     [\<lparr>PLAYER_NAME = Some ''P'', TEAM_ABBREVIATION = Some ''LAL'',
        CLUTCH_SCORE = Some 0, CLUTCH_RANK = Some (3 / 2)\<rparr>,
      \<lparr>PLAYER_NAME = Some ''T'', TEAM_ABBREVIATION = Some ''LAL'',
        CLUTCH_SCORE = Some 0, CLUTCH_RANK = Some (3 / 2)\<rparr>] 0 = 0"
  by (simp add: example_tied_players count_greater_def)

text \<open>
  C2, amended. For every non-empty table of complete records, the rank of a record is the
  average of the positions that the records with its score occupy in descending order:
  the count of records with a strictly greater score, plus (the count of records with
  that same score + 1) / 2. It is at least 1, and it is the count of records with a
  strictly greater score plus 1 when no other record has the same score. Records with
  equal scores have equal ranks, and a record with a strictly greater score has a
  strictly smaller rank.
\<close>

theorem ranks_average_of_positions:
  assumes "df \<noteq> []" and "\<forall>r\<in>set df. stats_present r"
  shows "\<exists>out. calcular_clutch_score df = Inr out \<and>
           (\<forall>x\<in>set out. \<exists>s k. CLUTCH_SCORE x = Some s \<and> CLUTCH_RANK x = Some k \<and>
               k = real (count_greater out s) + (real (count_equal out s) + 1) / 2 \<and>
               1 \<le> count_equal out s \<and> 1 \<le> k \<and>
               (count_equal out s = 1 \<longleftrightarrow> k = real (count_greater out s) + 1)) \<and>
           (\<forall>x\<in>set out. \<forall>y\<in>set out.
               CLUTCH_SCORE x = CLUTCH_SCORE y \<longrightarrow> CLUTCH_RANK x = CLUTCH_RANK y) \<and>
           (\<forall>x\<in>set out. \<forall>y\<in>set out. \<forall>s t j k.
               CLUTCH_SCORE x = Some s \<and> CLUTCH_SCORE y = Some t \<and>
               CLUTCH_RANK x = Some j \<and> CLUTCH_RANK y = Some k \<and> t < s \<longrightarrow> j < k)"
proof -
  let ?out = "sort_values_descending (map (clutch_row df) df)"
  have score: "\<exists>s. CLUTCH_SCORE x = Some s" if "x \<in> set ?out" for x
    using output_row_score [OF assms(2) that] .
  have rank: "CLUTCH_RANK x = Some (real (count_greater ?out s) + (real (count_equal ?out s) + 1) / 2)"
    if "x \<in> set ?out" "CLUTCH_SCORE x = Some s" for x s
    using output_row_rank [OF that] .
  have 1: "\<exists>s k. CLUTCH_SCORE x = Some s \<and> CLUTCH_RANK x = Some k \<and>
               k = real (count_greater ?out s) + (real (count_equal ?out s) + 1) / 2 \<and>
               1 \<le> count_equal ?out s \<and> 1 \<le> k \<and>
               (count_equal ?out s = 1 \<longleftrightarrow> k = real (count_greater ?out s) + 1)"
    if x: "x \<in> set ?out" for x
  proof -
    from score [OF x] obtain s where s: "CLUTCH_SCORE x = Some s" ..
    let ?k = "real (count_greater ?out s) + (real (count_equal ?out s) + 1) / 2"
    have e: "1 \<le> count_equal ?out s" using x s by (rule count_equal_pos)
    then have "1 \<le> real (count_equal ?out s)" by simp
    then have k1: "1 \<le> ?k"
      by (intro average_ge_1_arith) simp_all
    have "?k = real (count_greater ?out s) + 1 \<longleftrightarrow> real (count_equal ?out s) = 1"
      by (simp add: field_simps)
    then have u: "count_equal ?out s = 1 \<longleftrightarrow> ?k = real (count_greater ?out s) + 1"
      by simp
    from s rank [OF x s] e k1 u show ?thesis by blast
  qed
  have 2: "CLUTCH_RANK x = CLUTCH_RANK y"
    if "x \<in> set ?out" "y \<in> set ?out" "CLUTCH_SCORE x = CLUTCH_SCORE y" for x y
  proof -
    from score [OF that(1)] obtain s where s: "CLUTCH_SCORE x = Some s" ..
    with that(3) have "CLUTCH_SCORE y = Some s" by simp
    with s show ?thesis using rank that(1,2) by simp
  qed
  have 3: "j < k"
    if "x \<in> set ?out" "y \<in> set ?out" "CLUTCH_SCORE x = Some s" "CLUTCH_SCORE y = Some t"
      "CLUTCH_RANK x = Some j" "CLUTCH_RANK y = Some k" "t < s" for x y s t j k
    using rank [OF that(1,3)] rank [OF that(2,4)] that(5,6)
      rank_formula_less [OF that(7) that(1) that(3)] by simp
  have "calcular_clutch_score df = Inr ?out"
    using assms(1) by (rule calcular_clutch_score_rows)
  with 1 2 3 show ?thesis by blast
qed

theorem ranks_average_of_positions_witness:
  "stats_present player_P \<and> stats_present player_T \<and>
   (\<exists>out. calcular_clutch_score [player_P, player_T] = Inr out \<and>
      (\<forall>x\<in>set out. CLUTCH_SCORE x = Some 0 \<and> CLUTCH_RANK x = Some (3 / 2) \<and>
          count_greater out 0 = 0 \<and> count_equal out 0 = 2))"
proof -
  have h1: "[player_P, player_T] \<noteq> []" by simp
  have h2: "\<forall>r\<in>set [player_P, player_T]. stats_present r"
    by (simp add: example_present)
  from ranks_average_of_positions [OF h1 h2] show ?thesis
    by (simp add: example_present example_tied_players count_greater_def count_equal_def)
qed

subsection \<open>C3: a column in which all records agree\<close>




subsection \<open>C4: the result is sorted by descending score\<close>

text \<open>
  C4. For every non-empty table of complete records, any two adjacent result rows
  \<open>i\<close> and \<open>i + 1\<close> have scores \<open>a \<ge> b\<close>, and ranks that follow this order: the rank of
  row \<open>i\<close> is at most that of row \<open>i + 1\<close>, strictly smaller when \<open>a > b\<close> and equal when
  \<open>a = b\<close>.
\<close>

theorem output_sorted_descending:
  assumes "df \<noteq> []" and "\<forall>r\<in>set df. stats_present r"
  shows "\<exists>out. calcular_clutch_score df = Inr out \<and>
           (\<forall>i. Suc i < length out \<longrightarrow>
              (\<exists>a b j k. CLUTCH_SCORE (out ! i) = Some a \<and> CLUTCH_SCORE (out ! Suc i) = Some b \<and>
                 b \<le> a \<and>
                 CLUTCH_RANK (out ! i) = Some j \<and> CLUTCH_RANK (out ! Suc i) = Some k \<and>
                 j \<le> k \<and> (b < a \<longrightarrow> j < k) \<and> (b = a \<longrightarrow> j = k)))"
proof -
  let ?rows = "map (clutch_row df) df"
  let ?out = "sort_values_descending ?rows"
  have score: "\<exists>s. CLUTCH_SCORE x = Some s" if "x \<in> set ?out" for x
    using output_row_score [OF assms(2) that] .
  have "set ?out = set ?rows"
    using mset_sort_values_descending [of ?rows] by (rule mset_eq_setD)
  then have "\<forall>x\<in>set ?rows. CLUTCH_SCORE x \<noteq> None"
    using score by fastforce
  then have out: "?out = sort_key (\<lambda>x. - the (CLUTCH_SCORE x)) ?rows"
    by (rule sort_values_descending_complete)
  have adj: "\<exists>a b j k. CLUTCH_SCORE (?out ! i) = Some a \<and> CLUTCH_SCORE (?out ! Suc i) = Some b \<and>
                 b \<le> a \<and>
                 CLUTCH_RANK (?out ! i) = Some j \<and> CLUTCH_RANK (?out ! Suc i) = Some k \<and>
                 j \<le> k \<and> (b < a \<longrightarrow> j < k) \<and> (b = a \<longrightarrow> j = k)"
    if i: "Suc i < length ?out" for i
  proof -
    have x: "?out ! i \<in> set ?out" and y: "?out ! Suc i \<in> set ?out"
      using i by simp_all
    from score [OF x] obtain a where a: "CLUTCH_SCORE (?out ! i) = Some a" ..
    from score [OF y] obtain b where b: "CLUTCH_SCORE (?out ! Suc i) = Some b" ..
    have "Suc i < length ?rows" using i out by simp
    then have "- the (CLUTCH_SCORE (?out ! i)) \<le> - the (CLUTCH_SCORE (?out ! Suc i))"
      unfolding out by (rule sort_key_adjacent)
    then have le: "b \<le> a" using a b by simp
    let ?j = "real (count_greater ?out a) + (real (count_equal ?out a) + 1) / 2"
    let ?k = "real (count_greater ?out b) + (real (count_equal ?out b) + 1) / 2"
    have j: "CLUTCH_RANK (?out ! i) = Some ?j" using x a by (rule output_row_rank)
    have k: "CLUTCH_RANK (?out ! Suc i) = Some ?k" using y b by (rule output_row_rank)
    have lt: "?j < ?k" if "b < a" using that x a by (rule rank_formula_less)
    have eq: "?j = ?k" if "b = a" using that by simp
    have "?j \<le> ?k" using le lt eq by fastforce
    with a b le j k lt eq show ?thesis by blast
  qed
  have "calcular_clutch_score df = Inr ?out"
    using assms(1) by (rule calcular_clutch_score_rows)
  with adj show ?thesis by blast
qed

theorem output_sorted_descending_witness:
  "stats_present player_Q \<and> stats_present player_P \<and>
   (\<exists>out. calcular_clutch_score [player_Q, player_P] = Inr out \<and>
      (\<exists>a b j k. CLUTCH_SCORE (out ! 0) = Some a \<and> CLUTCH_SCORE (out ! 1) = Some b \<and> b \<le> a \<and>
         CLUTCH_RANK (out ! 0) = Some j \<and> CLUTCH_RANK (out ! 1) = Some k \<and> j \<le> k))"
proof -
  have h1: "[player_Q, player_P] \<noteq> []" by simp
  have h2: "\<forall>r\<in>set [player_Q, player_P]. stats_present r"
    by (simp add: example_present)
  from output_sorted_descending [OF h1 h2] obtain out where
    out: "calcular_clutch_score [player_Q, player_P] = Inr out"
    and adj: "\<forall>i. Suc i < length out \<longrightarrow>
              (\<exists>a b j k. CLUTCH_SCORE (out ! i) = Some a \<and> CLUTCH_SCORE (out ! Suc i) = Some b \<and>
                 b \<le> a \<and>
                 CLUTCH_RANK (out ! i) = Some j \<and> CLUTCH_RANK (out ! Suc i) = Some k \<and>
                 j \<le> k \<and> (b < a \<longrightarrow> j < k) \<and> (b = a \<longrightarrow> j = k))"
    by blast
  from out have "length out = 2" by (auto simp: example_two_players)
  with adj [rule_format, of 0] have
    "\<exists>a b j k. CLUTCH_SCORE (out ! 0) = Some a \<and> CLUTCH_SCORE (out ! 1) = Some b \<and> b \<le> a \<and>
         CLUTCH_RANK (out ! 0) = Some j \<and> CLUTCH_RANK (out ! 1) = Some k \<and> j \<le> k"
    by fastforce
  with out show ?thesis using example_present by blast
qed

subsection \<open>C5: the empty table\<close>

text \<open>
  C5 states that the function fails on the empty input with an error dedicated to it. The
  code has no check of its own and no error class. On the frame with no column that the
  fetcher returns when its request fails, the column selection raises \<^verbatim>\<open>KeyError\<close>; on a
  table with the columns and no row, the scaler's input validation raises \<^verbatim>\<open>ValueError\<close>;
  the two differ, and \<^verbatim>\<open>KeyError\<close> is also what a frame with a row but without the stat
  columns gets.
\<close>

theorem empty_input_counterexample:
  "calcular_clutch_score_frame
     (obtener_datos_jugadores_frame [''LAL'', ''BOS''] (Inl (Exception ''timeout'')))
     = Inl KeyError \<and>
   calcular_clutch_score_frame (Columns []) = Inl ValueError \<and>
   KeyError \<noteq> ValueError \<and>
   fst (calcular_clutch_score_store 0 store_ids) = Inl KeyError"
  by (simp add: calcular_clutch_score_frame_def obtener_datos_jugadores_frame_def
      calcular_clutch_score_empty store_ids_def store_defs)

text \<open>
  C5, amended. On every frame with no rows the function raises before any score is
  computed and returns nothing: \<^verbatim>\<open>KeyError\<close>, from the column selection, when the frame
  has no columns, and \<^verbatim>\<open>ValueError\<close>, from the validation of the scaler's input, when it
  has the columns.
\<close>

theorem empty_input_raises:
  assumes "frame_rows df = []"
  shows "calcular_clutch_score_frame df
         = Inl (case df of Columnless \<Rightarrow> KeyError | Columns rows \<Rightarrow> ValueError)"
  using assms
  by (cases df) (simp_all add: calcular_clutch_score_frame_def frame_rows_def calcular_clutch_score_empty)

theorem empty_input_raises_witness:
  "frame_rows Columnless = [] \<and> frame_rows (Columns []) = [] \<and>
   calcular_clutch_score_frame Columnless = Inl KeyError \<and>
   calcular_clutch_score_frame (Columns []) = Inl ValueError"
proof -
  have h1: "frame_rows Columnless = []" and h2: "frame_rows (Columns []) = []"
    by (simp_all add: frame_rows_def)
  from empty_input_raises [OF h1] empty_input_raises [OF h2] show ?thesis
    using h1 h2 by simp
qed

subsection \<open>C6: records with a missing value\<close>

text \<open>
  C6 states that a record with a missing stat makes the function fail before it computes
  anything. The function has no such check: the scaler leaves a missing value out of the
  mean and the deviation and keeps it missing, so the record gets a missing score and
  rank, and the other record is scored and ranked.
\<close>

theorem missing_value_counterexample:
  "calcular_clutch_score [player_P, player_N] =
     Inr [\<lparr>PLAYER_NAME = Some ''P'', TEAM_ABBREVIATION = Some ''LAL'',
            CLUTCH_SCORE = Some (- (3 / 10)), CLUTCH_RANK = Some 1\<rparr>,
          \<lparr>PLAYER_NAME = Some ''N'', TEAM_ABBREVIATION = Some ''BOS'',
            CLUTCH_SCORE = None, CLUTCH_RANK = None\<rparr>]"
  by (simp add: model_defs example_defs power2_eq_square sqrt_values del: not_None_eq)

text \<open>
  C6, amended. For every non-empty table, also one with missing stats, the function
  raises nothing and returns one row per record (name and team), in which the score and
  the rank are present exactly for the records that have all six stats. Dropping
  incomplete records is what the caller \<^const>\<open>obtener_datos_jugadores\<close> does.
\<close>

theorem missing_values_not_rejected:
  assumes "df \<noteq> []"
  shows "\<exists>out. calcular_clutch_score df = Inr out \<and>
           mset (map (\<lambda>x. (PLAYER_NAME x, TEAM_ABBREVIATION x,
                            CLUTCH_SCORE x \<noteq> None, CLUTCH_RANK x \<noteq> None)) out)
           = mset (map (\<lambda>r. (PLAYER_NAME r, TEAM_ABBREVIATION r,
                               stats_present r, stats_present r)) df)"
proof -
  let ?rows = "map (clutch_row df) df"
  have "map (\<lambda>x. (PLAYER_NAME x, TEAM_ABBREVIATION x, CLUTCH_SCORE x \<noteq> None, CLUTCH_RANK x \<noteq> None)) ?rows
        = map (\<lambda>r. (PLAYER_NAME r, TEAM_ABBREVIATION r, stats_present r, stats_present r)) df"
    using record_score_present_iff [of _ df]
    by (simp add: clutch_row_projections del: not_None_eq)
  then have "mset (map (\<lambda>x. (PLAYER_NAME x, TEAM_ABBREVIATION x, CLUTCH_SCORE x \<noteq> None, CLUTCH_RANK x \<noteq> None))
               (sort_values_descending ?rows))
        = mset (map (\<lambda>r. (PLAYER_NAME r, TEAM_ABBREVIATION r, stats_present r, stats_present r)) df)"
    by (simp only: mset_map_sort_values_descending)
  then show ?thesis
    using calcular_clutch_score_rows [OF assms] by blast
qed

theorem missing_values_not_rejected_witness:
  "[player_P, player_N] \<noteq> [] \<and> \<not> stats_present player_N \<and>
   (\<exists>out. calcular_clutch_score [player_P, player_N] = Inr out \<and>
      mset (map (\<lambda>x. (PLAYER_NAME x, TEAM_ABBREVIATION x,
                       CLUTCH_SCORE x \<noteq> None, CLUTCH_RANK x \<noteq> None)) out)
      = mset [(Some ''P'', Some ''LAL'', True, True), (Some ''N'', Some ''BOS'', False, False)])"
proof -
  have h1: "[player_P, player_N] \<noteq> []" by simp
  from missing_values_not_rejected [OF h1] show ?thesis
    by (simp add: example_present del: not_None_eq) (simp add: example_defs)
qed

subsection \<open>C7: one result row per record\<close>

text \<open>
  C7. For every non-empty table of complete records the result has as many rows as the
  table, and the pairs of name and team of the result rows are those of the records, each
  as often as it occurs there: no row is dropped or duplicated.
\<close>

theorem one_result_per_record:
  assumes "df \<noteq> []" and "\<forall>r\<in>set df. stats_present r"
  shows "\<exists>out. calcular_clutch_score df = Inr out \<and> length out = length df \<and>
           mset (map (\<lambda>x. (PLAYER_NAME x, TEAM_ABBREVIATION x)) out)
           = mset (map (\<lambda>r. (PLAYER_NAME r, TEAM_ABBREVIATION r)) df)"
proof -
  let ?out = "sort_values_descending (map (clutch_row df) df)"
  have "map (\<lambda>x. (PLAYER_NAME x, TEAM_ABBREVIATION x)) (map (clutch_row df) df)
        = map (\<lambda>r. (PLAYER_NAME r, TEAM_ABBREVIATION r)) df"
    by (simp add: clutch_row_projections)
  then have m: "mset (map (\<lambda>x. (PLAYER_NAME x, TEAM_ABBREVIATION x)) ?out)
        = mset (map (\<lambda>r. (PLAYER_NAME r, TEAM_ABBREVIATION r)) df)"
    by (simp only: mset_map_sort_values_descending)
  have "size (mset ?out) = size (mset (map (clutch_row df) df))"
    by (simp only: mset_sort_values_descending)
  then have "length ?out = length df" by simp
  with m show ?thesis
    using calcular_clutch_score_rows [OF assms(1)] by blast
qed

theorem one_result_per_record_witness:
  "stats_present player_Q \<and> stats_present player_P \<and>
   (\<exists>out. calcular_clutch_score [player_Q, player_P] = Inr out \<and> length out = 2 \<and>
      mset (map (\<lambda>x. (PLAYER_NAME x, TEAM_ABBREVIATION x)) out)
        = mset [(Some ''Q'', Some ''BOS''), (Some ''P'', Some ''LAL'')])"
proof -
  have h1: "[player_Q, player_P] \<noteq> []" by simp
  have h2: "\<forall>r\<in>set [player_Q, player_P]. stats_present r"
    by (simp add: example_present)
  from one_result_per_record [OF h1 h2] obtain out where
    out: "calcular_clutch_score [player_Q, player_P] = Inr out"
    and len: "length out = length [player_Q, player_P]"
    and ids: "mset (map (\<lambda>x. (PLAYER_NAME x, TEAM_ABBREVIATION x)) out)
              = mset (map (\<lambda>r. (PLAYER_NAME r, TEAM_ABBREVIATION r)) [player_Q, player_P])"
    by blast
  from len have "length out = 2" by simp
  moreover from ids have "mset (map (\<lambda>x. (PLAYER_NAME x, TEAM_ABBREVIATION x)) out)
        = mset [(Some ''Q'', Some ''BOS''), (Some ''P'', Some ''LAL'')]"
    by (simp add: example_defs)
  ultimately show ?thesis using out example_present by blast
qed

subsection \<open>C8: no side effect, same result on a second call\<close>

text \<open>
  C8. In a store where \<open>df\<close> refers to a table, what the function returns is determined by
  the rows of that table alone (it is the value of \<^const>\<open>calcular_clutch_score\<close> on
  them); no object that existed before the call is changed by it, in particular the
  table \<open>df\<close> refers to; and a second call on the same reference returns the same rows,
  scores and ranks as the first.
\<close>

theorem no_side_effects_deterministic:
  assumes "heap s df = Some (Players rows)" and "df < next_addr s"
  shows "returned (calcular_clutch_score_store df s) = calcular_clutch_score rows \<and>
         (\<forall>a<next_addr s. heap (snd (calcular_clutch_score_store df s)) a = heap s a) \<and>
         heap (snd (calcular_clutch_score_store df s)) df = Some (Players rows) \<and>
         returned (calcular_clutch_score_store df (snd (calcular_clutch_score_store df s)))
           = returned (calcular_clutch_score_store df s)"
proof -
  let ?s' = "snd (calcular_clutch_score_store df s)"
  note first = run_store [OF assms]
  have h: "heap ?s' df = Some (Players rows)"
    using first(2) assms by simp
  have n: "df < next_addr ?s'"
    using first(3) assms(2) by simp
  have "returned (calcular_clutch_score_store df ?s') = calcular_clutch_score rows"
    using h n by (rule run_store(1))
  with first h show ?thesis by simp
qed

theorem no_side_effects_deterministic_witness:
  "heap store_0 0 = Some (Players [player_Q, player_P]) \<and> 0 < next_addr store_0 \<and>
   returned (calcular_clutch_score_store 0 store_0) = calcular_clutch_score [player_Q, player_P] \<and>
   heap (snd (calcular_clutch_score_store 0 store_0)) 0 = Some (Players [player_Q, player_P]) \<and>
   returned (calcular_clutch_score_store 0 (snd (calcular_clutch_score_store 0 store_0)))
     = Inr [\<lparr>PLAYER_NAME = Some ''P'', TEAM_ABBREVIATION = Some ''LAL'',
              CLUTCH_SCORE = Some (1 / 20), CLUTCH_RANK = Some 1\<rparr>,
            \<lparr>PLAYER_NAME = Some ''Q'', TEAM_ABBREVIATION = Some ''BOS'',
              CLUTCH_SCORE = Some (- (1 / 20)), CLUTCH_RANK = Some 2\<rparr>]"
proof -
  have h1: "heap store_0 0 = Some (Players [player_Q, player_P])" by (simp add: store_0_def)
  have h2: "0 < next_addr store_0" by (simp add: store_0_def)
  from no_side_effects_deterministic [OF h1 h2] show ?thesis
    using h1 h2 by (simp add: example_two_players)
qed

subsection \<open>C9: a single record\<close>

text \<open>
  C9. For a table of one complete record the function raises nothing: every column has
  variance (hence standard deviation) zero and divisor 1, every standardized value is 0,
  the score of the record is 0 and its rank is 1.
\<close>

theorem single_record:
  assumes "stats_present p"
  shows "fit (select_columns (map fst weights) [p])
           = Inr \<lparr>scaler_mean = [PTS p, FG_PCT p, FT_PCT p, AST p, FG3_PCT p, TOV p],
                  scaler_var = replicate 6 (Some 0),
                  scaler_scale = replicate 6 (Some 1)\<rparr> \<and>
         fit_transform (select_columns (map fst weights) [p]) = Inr [replicate 6 (Some 0)] \<and>
         calcular_clutch_score [p]
           = Inr [\<lparr>PLAYER_NAME = PLAYER_NAME p, TEAM_ABBREVIATION = TEAM_ABBREVIATION p,
                   CLUTCH_SCORE = Some 0, CLUTCH_RANK = Some 1\<rparr>]"
proof -
  from assms obtain pts fg ft ast fg3 tov where
    "PTS p = Some pts" "FG_PCT p = Some fg" "FT_PCT p = Some ft"
    "AST p = Some ast" "FG3_PCT p = Some fg3" "TOV p = Some tov"
    by (auto simp: stats_present_iff)
  then show ?thesis
    by (simp add: model_defs numeral_eq_Suc del: not_None_eq)
qed

theorem single_record_witness:
  "stats_present player_P \<and>
   calcular_clutch_score [player_P]
     = Inr [\<lparr>PLAYER_NAME = Some ''P'', TEAM_ABBREVIATION = Some ''LAL'',
             CLUTCH_SCORE = Some 0, CLUTCH_RANK = Some 1\<rparr>]"
proof -
  have h: "stats_present player_P" by (simp add: stats_present_iff player_P_def)
  from single_record [OF h] show ?thesis using h by (simp add: player_P_def)
qed

subsection \<open>C10: the player-stats fetcher\<close>

text \<open>
  C10. Every record that \<^const>\<open>obtener_datos_jugadores\<close> returns has its team among
  the requested ones and no missing value in any of the eight selected columns, so it is
  complete for scoring; rows with a missing value are dropped before the filter on the
  team; and when the request raises, the result is the frame with no rows.
\<close>

theorem obtener_datos_jugadores_filtered:
  "(\<forall>r\<in>set (snd (obtener_datos_jugadores abreviaturas (Inr stats))).
      (\<exists>t. TEAM_ABBREVIATION r = Some t \<and> t \<in> set abreviaturas) \<and>
      PLAYER_NAME r \<noteq> None \<and> FG_PCT r \<noteq> None \<and> FG3_PCT r \<noteq> None \<and> FT_PCT r \<noteq> None \<and>
      AST r \<noteq> None \<and> TOV r \<noteq> None \<and> PTS r \<noteq> None \<and> stats_present r) \<and>
   snd (obtener_datos_jugadores abreviaturas (Inr stats))
     = filter (\<lambda>r. isin (TEAM_ABBREVIATION r) abreviaturas) (dropna (map player.truncate stats)) \<and>
   snd (obtener_datos_jugadores abreviaturas (Inl e)) = []"
  by (auto simp add: obtener_datos_jugadores_def dropna_def isin_def stats_present_iff
      split: option.splits)

theorem obtener_datos_jugadores_filtered_witness:
  "snd (obtener_datos_jugadores [''LAL'', ''BOS''] (Inr [player_P, player_N, player_M, player_Q]))
     = [player_P, player_Q] \<and>
   stats_present player_P \<and> stats_present player_Q \<and>
   snd (obtener_datos_jugadores [''LAL'', ''BOS''] (Inl (Exception ''timeout''))) = []"
proof -
  note t = obtener_datos_jugadores_filtered
    [of "[''LAL'', ''BOS'']" "[player_P, player_N, player_M, player_Q]" "Exception ''timeout''"]
  have e: "snd (obtener_datos_jugadores [''LAL'', ''BOS''] (Inr [player_P, player_N, player_M, player_Q]))
           = [player_P, player_Q]"
    by (simp add: obtener_datos_jugadores_def dropna_def isin_def player.defs example_defs
        del: not_None_eq)
  from t have "\<forall>r\<in>set (snd (obtener_datos_jugadores [''LAL'', ''BOS'']
                  (Inr [player_P, player_N, player_M, player_Q]))). stats_present r"
    by blast
  then have "stats_present player_P \<and> stats_present player_Q"
    unfolding e by simp
  moreover from t have "snd (obtener_datos_jugadores [''LAL'', ''BOS''] (Inl (Exception ''timeout''))) = []"
    by blast
  ultimately show ?thesis using e by blast
qed

end
